theory Spec2Isabelle
  imports Main "HOL-Library.Sublist"
begin

section \<open>Python strings\<close>

text \<open>
  TopicMining.py is string processing around one blocking call.  A Python \<open>str\<close> is
  represented here by its UTF-8 encoding, one \<^typ>\<open>char\<close> per byte: this is the form
  \<open>urllib.parse.quote\<close> works on (its first step is \<open>string.encode('utf-8')\<close>), and
  splitting, joining, searching and replacing ASCII characters act on the encoding as
  they act on the code points.  A \<open>str\<close> may hold a lone surrogate (U+D800 to U+DFFF),
  which strict UTF-8 refuses to encode; in the representation it is written as the three
  bytes the UTF-8 scheme gives that code point (Python's \<open>surrogatepass\<close>): \<open>ED\<close>, a byte
  from \<open>A0\<close> to \<open>BF\<close>, and a continuation byte.
\<close>

subsection \<open>\<open>str.split(sep)\<close> and \<open>sep.join(parts)\<close>\<close>

text \<open>
  \<open>s.split('|')\<close> scans \<open>s\<close> from the left and cuts at every occurrence of the
  separator; \<open>cur\<close> holds the characters of the segment being read, last one first.
\<close>

fun split_acc :: "char \<Rightarrow> string \<Rightarrow> string \<Rightarrow> string list" where
  "split_acc sep cur [] = [rev cur]"
| "split_acc sep cur (c # cs) =
     (if c = sep then rev cur # split_acc sep [] cs else split_acc sep (c # cur) cs)"

definition split_on :: "char \<Rightarrow> string \<Rightarrow> string list" where
  "split_on sep s = split_acc sep [] s"

fun join :: "string \<Rightarrow> string list \<Rightarrow> string" where
  "join sep [] = []"
| "join sep [x] = x"
| "join sep (x # y # ys) = x @ sep @ join sep (y # ys)"

subsection \<open>\<open>str.strip()\<close>\<close>

text \<open>
  The characters \<open>str.strip()\<close> removes are those of \<open>str.isspace\<close>: the ASCII
  control characters 0x09-0x0D and 0x1C-0x1F, the space, and U+0085, U+00A0, U+1680,
  U+2000-U+200A, U+2028, U+2029, U+202F, U+205F and U+3000, listed here in UTF-8.
\<close>

definition whitespace :: "string list" where
  "whitespace =
     [[CHR 0x09], [CHR 0x0A], [CHR 0x0B], [CHR 0x0C], [CHR 0x0D],
      [CHR 0x1C], [CHR 0x1D], [CHR 0x1E], [CHR 0x1F], [CHR 0x20],
      [CHR 0xC2, CHR 0x85], [CHR 0xC2, CHR 0xA0],
      [CHR 0xE1, CHR 0x9A, CHR 0x80],
      [CHR 0xE2, CHR 0x80, CHR 0x80], [CHR 0xE2, CHR 0x80, CHR 0x81],
      [CHR 0xE2, CHR 0x80, CHR 0x82], [CHR 0xE2, CHR 0x80, CHR 0x83],
      [CHR 0xE2, CHR 0x80, CHR 0x84], [CHR 0xE2, CHR 0x80, CHR 0x85],
      [CHR 0xE2, CHR 0x80, CHR 0x86], [CHR 0xE2, CHR 0x80, CHR 0x87],
      [CHR 0xE2, CHR 0x80, CHR 0x88], [CHR 0xE2, CHR 0x80, CHR 0x89],
      [CHR 0xE2, CHR 0x80, CHR 0x8A],
      [CHR 0xE2, CHR 0x80, CHR 0xA8], [CHR 0xE2, CHR 0x80, CHR 0xA9],
      [CHR 0xE2, CHR 0x80, CHR 0xAF],
      [CHR 0xE2, CHR 0x81, CHR 0x9F],
      [CHR 0xE3, CHR 0x80, CHR 0x80]]"

text \<open>Removes, from the front of \<open>s\<close>, every leading occurrence of one of \<open>ws\<close>.\<close>

function strip_front :: "string list \<Rightarrow> string \<Rightarrow> string" where
  "strip_front ws s =
     (case find (\<lambda>w. w \<noteq> [] \<and> prefix w s) ws of
        None \<Rightarrow> s
      | Some w \<Rightarrow> strip_front ws (drop (length w) s))"
  by pat_completeness auto
termination
proof (relation "measure (\<lambda>(ws, s). length s)")
  show "wf (measure (\<lambda>(ws, s). length s))"
    by simp
next
  fix ws :: "string list" and s w :: string
  assume "find (\<lambda>w. w \<noteq> [] \<and> prefix w s) ws = Some w"
  then have "w \<noteq> []" and "prefix w s"
    by (auto simp: find_Some_iff)
  then obtain c v t where "w = c # v" and "s = w @ t"
    by (cases w) (auto simp: prefix_def)
  then show "((ws, drop (length w) s), (ws, s)) \<in> measure (\<lambda>(ws, s). length s)"
    by simp
qed

declare strip_front.simps [simp del]

definition lstrip :: "string \<Rightarrow> string" where
  "lstrip s = strip_front whitespace s"

definition rstrip :: "string \<Rightarrow> string" where
  "rstrip s = rev (strip_front (map rev whitespace) (rev s))"

definition strip :: "string \<Rightarrow> string" where
  "strip s = rstrip (lstrip s)"

subsection \<open>\<open>str.replace\<close> of one character by another\<close>

definition replace_char :: "char \<Rightarrow> char \<Rightarrow> string \<Rightarrow> string" where
  "replace_char old new s = map (\<lambda>c. if c = old then new else c) s"

subsection \<open>\<open>urllib.parse.quote\<close>\<close>

text \<open>
  \<open>quote(string)\<close> with the default \<open>safe='/'\<close> is
  \<open>quote_from_bytes(string.encode('utf-8', 'strict'))\<close>.  The second step keeps every
  byte that is a letter, a digit, one of \<open>_.-~\<close> or \<open>/\<close>, and turns every other byte
  \<open>b\<close> into \<open>'%{:02X}'.format(b)\<close>.
\<close>

definition always_safe :: string where
  "always_safe =
     ''ABCDEFGHIJKLMNOPQRSTUVWXYZabcdefghijklmnopqrstuvwxyz0123456789_.-~''"

definition safe_default :: string where
  "safe_default = ''/''"

definition hex_digit :: "nat \<Rightarrow> char" where
  "hex_digit d = ''0123456789ABCDEF'' ! d"

definition quote_byte :: "char \<Rightarrow> string" where
  "quote_byte c =
     (if c \<in> set (always_safe @ safe_default) then [c]
      else [CHR ''%'', hex_digit (of_char c div 16), hex_digit (of_char c mod 16)])"

definition quote_from_bytes :: "string \<Rightarrow> string" where
  "quote_from_bytes bs = concat (map quote_byte bs)"

text \<open>
  The first step raises \<open>UnicodeEncodeError\<close> when the string holds a lone surrogate,
  and only then.  In a represented string the byte \<open>ED\<close> always starts a character, and
  the character is a surrogate exactly when the next byte lies between \<open>A0\<close> and \<open>BF\<close>.
\<close>

fun has_surrogate :: "string \<Rightarrow> bool" where
  "has_surrogate (a # b # rest) =
     ((a = CHR 0xED \<and> (0xA0 :: nat) \<le> of_char b \<and> of_char b \<le> (0xBF :: nat))
      \<or> has_surrogate (b # rest))"
| "has_surrogate s = False"

text \<open>\<^term>\<open>None\<close> stands for the \<open>UnicodeEncodeError\<close>.\<close>

definition encode_utf8 :: "string \<Rightarrow> string option" where
  "encode_utf8 s = (if has_surrogate s then None else Some s)"

definition quote :: "string \<Rightarrow> string option" where
  "quote s = map_option quote_from_bytes (encode_utf8 s)"

subsection \<open>Substring test\<close>

text \<open>
  \<open>a in b\<close> on two strings holds when \<open>a\<close> occurs in \<open>b\<close> as a contiguous run of
  characters, anywhere: \<^term>\<open>sublist a b\<close>.
\<close>

section \<open>The application\<close>

subsection \<open>Fixed texts\<close>

definition invalid_key_text :: string where
  "invalid_key_text =
     ''The hardcoded OpenAI API key appears to be invalid. Please check the script.''"

definition value_error_text :: string where
  "value_error_text = ''AI model did not return the expected pipe-separated format.''"

definition api_error_text :: "string \<Rightarrow> string" where
  "api_error_text e = ''An error occurred while contacting the OpenAI API: '' @ e"

definition title_text :: string where
  "title_text = [CHR 0xF0, CHR 0x9F, CHR 0x93, CHR 0x88] @ '' AI-Powered Topic Mining Tool''"

definition intro_text :: string where
  "intro_text =
     ''Describe your product and ideal customer. The system will find 10 relevant Wikipedia topics and generate a link to track their popularity.''"

definition missing_input_text :: string where
  "missing_input_text =
     [CHR 0xE2, CHR 0x9A, CHR 0xA0, CHR 0xEF, CHR 0xB8, CHR 0x8F]
     @ '' Please fill out both the product description and customer profile.''"

definition spinner_text :: string where
  "spinner_text =
     [CHR 0xF0, CHR 0x9F, CHR 0xA7, CHR 0xA0]
     @ '' gpt-4o is analyzing your input and finding relevant topics...''"

definition success_text :: string where
  "success_text = [CHR 0xE2, CHR 0x9C, CHR 0x85] @ '' Success! Found relevant topics.''"

definition no_topics_text :: string where
  "no_topics_text =
     [CHR 0xE2, CHR 0x9D, CHR 0x8C]
     @ '' Could not generate Wikipedia topics. The AI may be experiencing issues or the response was malformed. Please try rephrasing your input or try again in a moment.''"

definition url_heading_text :: string where
  "url_heading_text = ''Your Custom Wikipedia Pageview URL''"

definition url_help_text :: string where
  "url_help_text =
     ''Click the button below to see the 20-day pageview trends for these topics. You can bookmark the link to monitor interest over time!''"

definition link_label :: string where
  "link_label = ''View Wikipedia Trends Now''"

definition topics_heading_text :: string where
  "topics_heading_text = ''#### Topics Found by gpt-4o:''"

definition bullet :: string where
  "bullet = [CHR 0x20, CHR 0xE2, CHR 0x80, CHR 0xA2, CHR 0x20]"

definition base_url :: string where
  "base_url =
     ''https://pageviews.wmcloud.org/?project=en.wikipedia.org&platform=all-access&agent=user&redirects=0&range=latest-20&pages=''"

subsection \<open>What the user sees, and the request\<close>

text \<open>
  Each Streamlit call the script makes after the form, and its call of
  \<open>client.chat.completions.create\<close>, is an event; a run of the script is the list of
  its events in order.  The call carries the API key and the two texts the user prompt
  embeds (the model name, the temperature and the rest of both prompts are constants of
  the script).  An exception that nothing in the script catches ends the run; the only
  one \<open>main\<close> can raise after the form is the \<open>UnicodeEncodeError\<close> of \<open>quote\<close>.
\<close>

datatype ui_event =
    St_title string
  | St_markdown string
  | St_subheader string
  | St_warning string
  | St_error string
  | St_success string
  | St_spinner string
  | St_link_button string string
  | St_write string
  | Completion_request string string string
  | Uncaught_UnicodeEncodeError

text \<open>
  The outcome of \<open>client.chat.completions.create(...)\<close> followed by
  \<open>response.choices[0].message.content\<close>: an exception \<open>e\<close>, given by \<open>str(e)\<close>, or
  the text of the reply.
\<close>

datatype api_outcome = Raises string | Content string

type_synonym endpoint = "string \<Rightarrow> string \<Rightarrow> string \<Rightarrow> api_outcome"

record form =
  submitted :: bool
  product_desc :: string
  customer_profile :: string

subsection \<open>The client of the \<open>openai\<close> package\<close>









subsection \<open>\<open>find_relevant_wiki_pages\<close>\<close>

text \<open>
  The body of the \<open>try\<close> statement, from the outcome of the call on: its value is the
  stripped reply, or the text of the exception that leaves it (\<^term>\<open>Inl\<close>), which is
  the call's own or the \<open>ValueError\<close> the validation raises.
\<close>

definition try_body :: "api_outcome \<Rightarrow> string + string" where
  "try_body outcome =
     (case outcome of
        Raises e \<Rightarrow> Inl e
      | Content body \<Rightarrow>
          (let page_titles_string = strip body in
           if CHR ''|'' \<notin> set page_titles_string
              \<or> length (split_on CHR ''|'' page_titles_string) < 5
           then Inl value_error_text
           else Inr page_titles_string))"

text \<open>
  The function returns the events of the call and its result; \<^term>\<open>None\<close> is Python's
  \<open>None\<close>.  The API key is optional because the function tests \<open>not api_key\<close>, which
  holds of \<open>None\<close> and of the empty string.  The \<open>except Exception as e\<close> clause is the
  \<^term>\<open>Inl\<close> branch.
\<close>

definition find_relevant_wiki_pages ::
  "endpoint \<Rightarrow> string option \<Rightarrow> string \<Rightarrow> string \<Rightarrow> ui_event list \<times> string option" where
  "find_relevant_wiki_pages endpoint api_key pd cp =
     (case api_key of
        None \<Rightarrow> ([St_error invalid_key_text], None)
      | Some key \<Rightarrow>
          if key = [] \<or> \<not> sublist ''sk-proj'' key
          then ([St_error invalid_key_text], None)
          else
            (case try_body (endpoint key pd cp) of
               Inl e \<Rightarrow> ([Completion_request key pd cp, St_error (api_error_text e)], None)
             | Inr page_titles_string \<Rightarrow>
                 ([Completion_request key pd cp], Some page_titles_string)))"

subsection \<open>\<open>main\<close>\<close>

text \<open>
  The list comprehension of line 113 encodes the pages from the first on and ends at
  the first one \<open>quote\<close> raises on; \<^term>\<open>None\<close> stands for that exception, here and in
  the URL built from the list.
\<close>

fun encoded_pages :: "string list \<Rightarrow> string list option" where
  "encoded_pages [] = Some []"
| "encoded_pages (page # rest) =
     (case quote (strip page) of
        None \<Rightarrow> None
      | Some encoded \<Rightarrow> map_option (\<lambda>others. encoded # others) (encoded_pages rest))"

definition final_url :: "string list \<Rightarrow> string option" where
  "final_url page_list =
     map_option (\<lambda>encoded. base_url @ join ''|'' encoded) (encoded_pages page_list)"

definition readable_pages :: "string list \<Rightarrow> string list" where
  "readable_pages page_list =
     map (\<lambda>p. strip (replace_char CHR ''_'' CHR '' '' p)) page_list"

definition show_topics :: "string \<Rightarrow> ui_event list" where
  "show_topics wiki_pages_str =
     (let page_list = split_on CHR ''|'' wiki_pages_str in
      St_success success_text #
      (case final_url page_list of
         None \<Rightarrow> [Uncaught_UnicodeEncodeError]
       | Some url \<Rightarrow>
           [St_markdown ''---'',
            St_subheader url_heading_text,
            St_markdown url_help_text,
            St_link_button link_label url,
            St_markdown ''---'',
            St_markdown topics_heading_text,
            St_write (bullet @ join (CHR 0x0A # bullet) (readable_pages page_list))]))"

definition main :: "endpoint \<Rightarrow> string \<Rightarrow> form \<Rightarrow> ui_event list" where
  "main endpoint openai_api_key f =
     [St_title title_text, St_markdown intro_text] @
     (if submitted f then
        if product_desc f = [] \<or> customer_profile f = []
        then [St_warning missing_input_text]
        else
          (case find_relevant_wiki_pages endpoint (Some openai_api_key)
                  (product_desc f) (customer_profile f) of
             (events, wiki_pages_str) \<Rightarrow>
               St_spinner spinner_text # events @
               (case wiki_pages_str of
                  None \<Rightarrow> [St_error no_topics_text]
                | Some str \<Rightarrow>
                    if str \<noteq> [] then show_topics str else [St_error no_topics_text]))
      else [])"

section \<open>Reading a trend URL back\<close>

text \<open>
  The specification speaks of the \<open>pages\<close> query value of a trend URL, split on its
  pipes and percent-decoded.  The value is what follows the fixed base URL; decoding
  replaces each \<open>%\<close> followed by two hexadecimal digits by the byte they denote.
\<close>

definition pages_value :: "string \<Rightarrow> string" where
  "pages_value url = drop (length base_url) url"

definition hex_value :: "char \<Rightarrow> nat option" where
  "hex_value c =
     map_of (zip ''0123456789ABCDEF'' [0..<16] @ zip ''abcdef'' [10..<16]) c"

fun percent_decode :: "string \<Rightarrow> string" where
  "percent_decode (c # h # l # rest) =
     (case (c = CHR ''%'', hex_value h, hex_value l) of
        (True, Some a, Some b) \<Rightarrow> char_of (16 * a + b) # percent_decode rest
      | _ \<Rightarrow> c # percent_decode (h # l # rest))"
| "percent_decode s = s"

section \<open>Facts about the string operations\<close>

subsection \<open>Splitting and joining\<close>

lemma length_split_acc:
  "length (split_acc sep cur s) = Suc (length (filter (\<lambda>c. c = sep) s))"
  by (induction s arbitrary: cur) auto

lemma length_split_on:
  "length (split_on sep s) = Suc (length (filter (\<lambda>c. c = sep) s))"
  by (simp add: split_on_def length_split_acc)

lemma split_acc_no_sep:
  "sep \<notin> set x \<Longrightarrow> split_acc sep cur x = [rev cur @ x]"
  by (induction x arbitrary: cur) auto

lemma split_acc_first:
  "sep \<notin> set x \<Longrightarrow> split_acc sep cur (x @ sep # rest) = (rev cur @ x) # split_acc sep [] rest"
  by (induction x arbitrary: cur) auto

lemma split_on_join:
  "xs \<noteq> [] \<Longrightarrow> \<forall>x\<in>set xs. sep \<notin> set x \<Longrightarrow> split_on sep (join [sep] xs) = xs"
proof (induction "[sep]" xs rule: join.induct)
  case 1
  then show ?case by simp
next
  case (2 x)
  then show ?case by (simp add: split_on_def split_acc_no_sep)
next
  case (3 x y ys)
  then show ?case by (simp add: split_on_def split_acc_first)
qed

lemma segments_no_sep:
  "sep \<notin> set cur \<Longrightarrow> \<forall>x\<in>set (split_acc sep cur s). sep \<notin> set x"
proof (induction s arbitrary: cur)
  case Nil
  then show ?case by simp
next
  case (Cons a s)
  show ?case
  proof (cases "a = sep")
    case True
    have "\<forall>x\<in>set (split_acc sep [] s). sep \<notin> set x"
      using Cons.IH[of "[]"] by simp
    with True Cons.prems show ?thesis by simp
  next
    case False
    then have "sep \<notin> set (a # cur)"
      using Cons.prems by auto
    then have "\<forall>x\<in>set (split_acc sep (a # cur) s). sep \<notin> set x"
      by (rule Cons.IH)
    with False show ?thesis by simp
  qed
qed

lemma strip_front_filter:
  "\<forall>w\<in>set ws. c \<notin> set w \<Longrightarrow> filter (\<lambda>d. d = c) (strip_front ws s) = filter (\<lambda>d. d = c) s"
proof (induction ws s rule: strip_front.induct)
  case (1 ws s)
  show ?case
  proof (cases "find (\<lambda>w. w \<noteq> [] \<and> prefix w s) ws")
    case None
    then show ?thesis by (simp add: strip_front.simps)
  next
    case (Some w)
    then have w: "w \<in> set ws" "prefix w s"
      by (auto simp: find_Some_iff)
    then obtain t where s: "s = w @ t"
      by (auto simp: prefix_def)
    have "c \<notin> set w" using w "1.prems" by blast
    then have "filter (\<lambda>d. d = c) w = []"
      by (auto simp: filter_empty_conv)
    moreover have "filter (\<lambda>d. d = c) (strip_front ws (drop (length w) s)) = filter (\<lambda>d. d = c) (drop (length w) s)"
      using "1.IH"[OF Some] "1.prems" by simp
    moreover have "strip_front ws s = strip_front ws (drop (length w) s)"
      using Some by (subst strip_front.simps) simp
    moreover have "filter (\<lambda>d. d = c) s = filter (\<lambda>d. d = c) w @ filter (\<lambda>d. d = c) (drop (length w) s)"
      using s by simp
    ultimately show ?thesis
      by simp
  qed
qed

lemma pipe_not_whitespace: "\<forall>w\<in>set whitespace. CHR ''|'' \<notin> set w"
  by (simp add: whitespace_def)

lemma strip_pipes:
  "filter (\<lambda>d. d = CHR ''|'') (strip s) = filter (\<lambda>d. d = CHR ''|'') s"
proof -
  have l: "filter (\<lambda>d. d = CHR ''|'') (lstrip s) = filter (\<lambda>d. d = CHR ''|'') s"
    unfolding lstrip_def by (rule strip_front_filter[OF pipe_not_whitespace])
  have "\<forall>w\<in>set (map rev whitespace). CHR ''|'' \<notin> set w"
    by (simp add: whitespace_def)
  then have "filter (\<lambda>d. d = CHR ''|'') (strip_front (map rev whitespace) (rev t)) = filter (\<lambda>d. d = CHR ''|'') (rev t)" for t
    by (rule strip_front_filter)
  then have "filter (\<lambda>d. d = CHR ''|'') (rstrip t) = filter (\<lambda>d. d = CHR ''|'') t" for t
    unfolding rstrip_def by (metis rev_filter rev_rev_ident)
  then show ?thesis
    by (simp add: strip_def l)
qed

subsection \<open>Percent-encoding\<close>

lemma hex_digits_checked:
  "\<forall>d\<in>set [0..<16]. hex_value (hex_digit d) = Some d \<and> hex_digit d \<noteq> CHR ''|''
       \<and> hex_digit d \<noteq> CHR ''_'' \<and> hex_digit d \<noteq> CHR ''-''"
  by code_simp

lemma hex_digit_props:
  assumes "d < 16"
  shows "hex_value (hex_digit d) = Some d" and "hex_digit d \<noteq> CHR ''|''"
    and "hex_digit d \<noteq> CHR ''_''" and "hex_digit d \<noteq> CHR ''-''"
proof -
  have "d \<in> set [0..<16]" using assms by simp
  then show "hex_value (hex_digit d) = Some d" and "hex_digit d \<noteq> CHR ''|''"
    and "hex_digit d \<noteq> CHR ''_''" and "hex_digit d \<noteq> CHR ''-''"
    using hex_digits_checked by blast+
qed

lemma of_char_nibbles: "(of_char c :: nat) div 16 < 16" "(of_char c :: nat) mod 16 < 16"
proof -
  have "(of_char c :: nat) < 256" by simp
  then show "(of_char c :: nat) div 16 < 16" by (simp add: less_mult_imp_div_less)
  show "(of_char c :: nat) mod 16 < 16" by simp
qed

lemma safe_not_special:
  "c \<in> set (always_safe @ safe_default) \<Longrightarrow> c \<noteq> CHR ''%'' \<and> c \<noteq> CHR ''|''"
  by (auto simp: always_safe_def safe_default_def)

lemma pipe_not_in_quote_byte: "CHR ''|'' \<notin> set (quote_byte c)"
  using safe_not_special[of c] hex_digit_props(2)[OF of_char_nibbles(1)[of c]]
    hex_digit_props(2)[OF of_char_nibbles(2)[of c]]
  by (auto simp: quote_byte_def)

lemma pipe_not_in_quote: "CHR ''|'' \<notin> set (quote_from_bytes s)"
  by (induction s) (auto simp: quote_from_bytes_def pipe_not_in_quote_byte)

lemma percent_decode_Cons:
  "c \<noteq> CHR ''%'' \<Longrightarrow> percent_decode (c # t) = c # percent_decode t"
  by (cases "(c # t)" rule: percent_decode.cases) auto

lemma percent_decode_escape:
  "hex_value h = Some a \<Longrightarrow> hex_value l = Some b \<Longrightarrow>
   percent_decode (CHR ''%'' # h # l # t) = char_of (16 * a + b) # percent_decode t"
  by simp

lemma percent_decode_quote_byte:
  "percent_decode (quote_byte c @ t) = c # percent_decode t"
proof (cases "c \<in> set (always_safe @ safe_default)")
  case True
  then show ?thesis
    using safe_not_special[of c] by (simp add: quote_byte_def percent_decode_Cons)
next
  case False
  have "char_of (16 * ((of_char c :: nat) div 16) + of_char c mod 16) = c"
    by simp
  then show ?thesis
    using False hex_digit_props(1)[OF of_char_nibbles(1)[of c]]
      hex_digit_props(1)[OF of_char_nibbles(2)[of c]]
    by (simp add: quote_byte_def del: percent_decode.simps add: percent_decode_escape)
qed

lemma percent_decode_quote: "percent_decode (quote_from_bytes s) = s"
proof (induction s)
  case Nil
  then show ?case by (simp add: quote_from_bytes_def)
next
  case (Cons c s)
  then show ?case
    using percent_decode_quote_byte[of c "quote_from_bytes s"] by (simp add: quote_from_bytes_def)
qed

lemma quote_append: "quote_from_bytes (s @ t) = quote_from_bytes s @ quote_from_bytes t"
  by (simp add: quote_from_bytes_def)

lemma quote_kept: "c \<in> set (always_safe @ safe_default) \<Longrightarrow> quote_from_bytes [c] = [c]"
  by (simp add: quote_from_bytes_def quote_byte_def)

subsection \<open>Stripping keeps the pipes\<close>

lemma pipe_in_strip: "CHR ''|'' \<in> set (strip s) \<longleftrightarrow> CHR ''|'' \<in> set s"
proof -
  have "(filter (\<lambda>d. d = CHR ''|'') (strip s) = []) = (filter (\<lambda>d. d = CHR ''|'') s = [])"
    by (simp only: strip_pipes)
  then show ?thesis
    by (auto simp: filter_empty_conv)
qed

lemma segments_strip: "length (split_on CHR ''|'' (strip s)) = length (split_on CHR ''|'' s)"
  by (simp only: length_split_on strip_pipes)

lemma five_segments_pipe: "5 \<le> length (split_on sep s) \<Longrightarrow> sep \<in> set s"
proof -
  assume "5 \<le> length (split_on sep s)"
  then have "filter (\<lambda>c. c = sep) s \<noteq> []"
    by (auto simp: length_split_on)
  then show ?thesis
    by (auto simp: filter_empty_conv)
qed

lemma resolver_with_key:
  "key \<noteq> [] \<Longrightarrow> sublist ''sk-proj'' key \<Longrightarrow>
   find_relevant_wiki_pages endpoint (Some key) pd cp =
     (case try_body (endpoint key pd cp) of
        Inl e \<Rightarrow> ([Completion_request key pd cp, St_error (api_error_text e)], None)
      | Inr page_titles_string \<Rightarrow> ([Completion_request key pd cp], Some page_titles_string))"
  by (simp add: find_relevant_wiki_pages_def)

lemma key_checked: "''sk-proj-1'' \<noteq> []" "sublist ''sk-proj'' ''sk-proj-1''"
  by code_simp+

lemma strip_examples:
  "strip ''A|B|C'' = ''A|B|C''" "strip ''A|B|C|D|E'' = ''A|B|C|D|E''"
  "strip ''||||'' = ''||||''" "strip ''A |B|C|D|E'' = ''A |B|C|D|E''"
  by code_simp+

subsection \<open>Lone surrogates\<close>

lemma has_surrogate_append_right: "has_surrogate t \<Longrightarrow> has_surrogate (t @ ss)"
  by (induction t rule: has_surrogate.induct) auto

lemma has_surrogate_Cons: "has_surrogate t \<Longrightarrow> has_surrogate (p # t)"
  by (cases t) auto

lemma has_surrogate_append_left: "has_surrogate t \<Longrightarrow> has_surrogate (ps @ t)"
  by (induction ps) (auto simp: has_surrogate_Cons)

lemma has_surrogate_sublist: "sublist t s \<Longrightarrow> has_surrogate t \<Longrightarrow> has_surrogate s"
  by (auto simp: sublist_def has_surrogate_append_left has_surrogate_append_right)

lemma strip_front_suffix: "suffix (strip_front ws s) s"
proof (induction ws s rule: strip_front.induct)
  case (1 ws s)
  show ?case
  proof (cases "find (\<lambda>w. w \<noteq> [] \<and> prefix w s) ws")
    case None
    then show ?thesis by (simp add: strip_front.simps)
  next
    case (Some w)
    have "strip_front ws s = strip_front ws (drop (length w) s)"
      using Some by (subst strip_front.simps) simp
    moreover have "suffix (strip_front ws (drop (length w) s)) (drop (length w) s)"
      using "1.IH"[OF Some] .
    moreover have "suffix (drop (length w) s) s"
      by (rule suffix_drop)
    ultimately show ?thesis
      using suffix_order.order_trans by metis
  qed
qed

lemma strip_sublist: "sublist (strip s) s"
proof -
  have "suffix (lstrip s) s"
    unfolding lstrip_def by (rule strip_front_suffix)
  then have l: "sublist (lstrip s) s"
    by (rule suffix_imp_sublist)
  have "suffix (strip_front (map rev whitespace) (rev t)) (rev t)" for t
    by (rule strip_front_suffix)
  then have "prefix (rstrip t) t" for t
    unfolding rstrip_def by (metis rev_rev_ident suffix_to_prefix)
  then have "sublist (rstrip (lstrip s)) (lstrip s)"
    by (rule prefix_imp_sublist)
  then show ?thesis
    using l unfolding strip_def by (rule sublist_order.order_trans)
qed

lemma split_acc_sublist:
  "x \<in> set (split_acc sep cur s) \<Longrightarrow> sublist x (rev cur @ s)"
proof (induction s arbitrary: cur)
  case Nil
  then show ?case by simp
next
  case (Cons c cs)
  show ?case
  proof (cases "c = sep")
    case True
    then have "x = rev cur \<or> x \<in> set (split_acc sep [] cs)"
      using Cons.prems by simp
    then show ?thesis
    proof
      assume "x = rev cur"
      then show ?thesis by simp
    next
      assume "x \<in> set (split_acc sep [] cs)"
      then have "sublist x cs"
        using Cons.IH[of "[]"] by simp
      then obtain ps ss where "cs = ps @ x @ ss"
        by (auto simp: sublist_def)
      then have "rev cur @ c # cs = (rev cur @ c # ps) @ x @ ss"
        by simp
      then show ?thesis
        unfolding sublist_def by blast
    qed
  next
    case False
    then have "x \<in> set (split_acc sep (c # cur) cs)"
      using Cons.prems by simp
    then have "sublist x (rev (c # cur) @ cs)"
      by (rule Cons.IH)
    then show ?thesis by simp
  qed
qed

lemma segment_sublist: "x \<in> set (split_on sep s) \<Longrightarrow> sublist x s"
  using split_acc_sublist[of x sep "[]" s] by (simp add: split_on_def)

lemma stripped_segments_encodable:
  assumes "\<not> has_surrogate body"
  shows "\<forall>page\<in>set (split_on CHR ''|'' (strip body)). \<not> has_surrogate (strip page)"
proof
  fix page
  assume "page \<in> set (split_on CHR ''|'' (strip body))"
  then have "sublist page (strip body)"
    by (rule segment_sublist)
  then have "sublist page body"
    using strip_sublist[of body] by (rule sublist_order.order_trans)
  then have "sublist (strip page) body"
    using strip_sublist[of page] sublist_order.order_trans by blast
  then show "\<not> has_surrogate (strip page)"
    using assms has_surrogate_sublist by blast
qed

lemma quote_Some: "\<not> has_surrogate s \<Longrightarrow> quote s = Some (quote_from_bytes s)"
  by (simp add: quote_def encode_utf8_def)

lemma quote_None: "has_surrogate s \<Longrightarrow> quote s = None"
  by (simp add: quote_def encode_utf8_def)

lemma quote_eq_Some: "quote s = Some e \<longleftrightarrow> \<not> has_surrogate s \<and> e = quote_from_bytes s"
  by (auto simp: quote_def encode_utf8_def)

lemma encoded_pages_Some:
  "encoded_pages page_list = Some encoded \<longleftrightarrow>
     (\<forall>page\<in>set page_list. \<not> has_surrogate (strip page))
     \<and> encoded = map (\<lambda>page. quote_from_bytes (strip page)) page_list"
proof (induction page_list arbitrary: encoded)
  case Nil
  then show ?case by auto
next
  case (Cons page rest)
  show ?case
  proof (cases "has_surrogate (strip page)")
    case True
    then show ?thesis by (simp add: quote_None)
  next
    case False
    then show ?thesis
      using Cons.IH by (auto simp: quote_Some)
  qed
qed

lemma encoded_pages_None:
  "encoded_pages page_list = None \<longleftrightarrow> (\<exists>page\<in>set page_list. has_surrogate (strip page))"
proof -
  have "encoded_pages page_list = None \<longleftrightarrow> \<not> (\<exists>encoded. encoded_pages page_list = Some encoded)"
    by auto
  also have "\<dots> \<longleftrightarrow> \<not> (\<forall>page\<in>set page_list. \<not> has_surrogate (strip page))"
    unfolding encoded_pages_Some by blast
  finally show ?thesis
    by blast
qed

lemma marks_not_surrogate_bytes:
  assumes "mark = CHR ''_'' \<or> mark = CHR ''-''"
  shows "mark \<noteq> CHR 0xED" and "\<not> ((0xA0 :: nat) \<le> of_char mark \<and> of_char mark \<le> (0xBF :: nat))"
  using assms by auto

lemma has_surrogate_mark_Cons:
  assumes "mark = CHR ''_'' \<or> mark = CHR ''-''"
  shows "has_surrogate (mark # t) = has_surrogate t"
  using marks_not_surrogate_bytes[OF assms] by (cases t) auto

lemma has_surrogate_around_mark:
  assumes "mark = CHR ''_'' \<or> mark = CHR ''-''"
  shows "has_surrogate (s @ mark # t) \<longleftrightarrow> has_surrogate s \<or> has_surrogate t"
proof (induction s)
  case Nil
  show ?case
    using has_surrogate_mark_Cons[OF assms] by simp
next
  case (Cons a s)
  show ?case
  proof (cases s)
    case Nil
    then show ?thesis
      using marks_not_surrogate_bytes[OF assms] has_surrogate_mark_Cons[OF assms, of t] by auto
  next
    case (Cons b rest)
    then show ?thesis
      using Cons.IH by auto
  qed
qed

section \<open>The resolver\<close>

text \<open>
  Claim C2.  With a key that passes the key check and a reply \<open>body\<close> from the
  endpoint, the resolver succeeds exactly when the stripped body contains a pipe and
  splits on the pipe into at least five segments, and then returns the stripped body;
  otherwise it reports the error and returns \<open>None\<close>.  In both cases \<open>create\<close> was
  called once.  The witness runs it on \<open>A|B|C\<close> (failure) and \<open>A|B|C|D|E\<close> (success).
\<close>

theorem resolver_accepts_iff:
  assumes "key \<noteq> []" and "sublist ''sk-proj'' key"
    and "endpoint key pd cp = Content body"
  shows "find_relevant_wiki_pages endpoint (Some key) pd cp =
      (if CHR ''|'' \<in> set (strip body) \<and> 5 \<le> length (split_on CHR ''|'' (strip body))
       then ([Completion_request key pd cp], Some (strip body))
       else ([Completion_request key pd cp, St_error (api_error_text value_error_text)], None))"
  using assms by (simp add: resolver_with_key try_body_def Let_def not_less)

theorem resolver_accepts_iff_witness:
  "find_relevant_wiki_pages (\<lambda>k p c. Content ''A|B|C'') (Some ''sk-proj-1'') ''p'' ''c''
     = ([Completion_request ''sk-proj-1'' ''p'' ''c'',
         St_error (api_error_text value_error_text)], None)
   \<and> find_relevant_wiki_pages (\<lambda>k p c. Content ''A|B|C|D|E'') (Some ''sk-proj-1'') ''p'' ''c''
     = ([Completion_request ''sk-proj-1'' ''p'' ''c''], Some ''A|B|C|D|E'')"
  using resolver_accepts_iff[OF key_checked, of "\<lambda>k p c. Content ''A|B|C''" "''p''" "''c''" "''A|B|C''"]
    resolver_accepts_iff[OF key_checked, of "\<lambda>k p c. Content ''A|B|C|D|E''" "''p''" "''c''" "''A|B|C|D|E''"]
  by (simp add: strip_examples split_on_def)

text \<open>
  Claim C10.  Whenever \<open>find_relevant_wiki_pages\<close> returns a string, that string is the
  stripped reply of the endpoint, contains a pipe, and splits on the pipe into at least
  five segments.
\<close>

theorem resolver_result_postcondition:
  assumes "find_relevant_wiki_pages endpoint api_key pd cp = (events, Some v)"
  shows "\<exists>key body. api_key = Some key \<and> endpoint key pd cp = Content body
           \<and> v = strip body \<and> CHR ''|'' \<in> set v \<and> 5 \<le> length (split_on CHR ''|'' v)"
  using assms
  by (auto simp: find_relevant_wiki_pages_def try_body_def Let_def not_less
      split: option.splits if_splits sum.splits api_outcome.splits)

theorem resolver_result_postcondition_witness:
  "\<exists>key body. Some ''sk-proj-1'' = Some key
      \<and> (\<lambda>k p c. Content ''A|B|C|D|E'') key ''p'' ''c'' = Content body
      \<and> ''A|B|C|D|E'' = strip body \<and> CHR ''|'' \<in> set ''A|B|C|D|E''
      \<and> 5 \<le> length (split_on CHR ''|'' ''A|B|C|D|E'')"
proof -
  have "find_relevant_wiki_pages (\<lambda>k p c. Content ''A|B|C|D|E'') (Some ''sk-proj-1'') ''p'' ''c''
      = ([Completion_request ''sk-proj-1'' ''p'' ''c''], Some ''A|B|C|D|E'')"
    by (simp add: resolver_with_key key_checked try_body_def strip_examples split_on_def)
  then show ?thesis
    by (rule resolver_result_postcondition)
qed

lemma key_examples:
  "\<not> prefix ''sk-proj'' ''my-sk-proj-key''" "sublist ''sk-proj'' ''my-sk-proj-key''"
  "\<not> sublist ''sk-proj'' ''sk-abc''"
  by code_simp+

text \<open>
  The specification calls the key check a prefix check.  The script tests
  \<open>"sk-proj" not in api_key\<close>, a substring test: the key \<open>my-sk-proj-key\<close> does not
  start with \<open>sk-proj\<close>, and the resolver runs with it and sends the request.
\<close>

theorem key_prefix_counterexample:
  "\<not> prefix ''sk-proj'' ''my-sk-proj-key''
   \<and> find_relevant_wiki_pages (\<lambda>k p c. Content ''A|B|C|D|E'') (Some ''my-sk-proj-key'') ''p'' ''c''
       = ([Completion_request ''my-sk-proj-key'' ''p'' ''c''], Some ''A|B|C|D|E'')"
  by (simp add: key_examples resolver_with_key try_body_def strip_examples split_on_def)

text \<open>
  Claim C5, amended.  The resolver refuses to run, reporting the invalid-key error and
  returning \<open>None\<close> without any request, exactly when the API key is absent, empty, or
  does not contain \<open>sk-proj\<close> anywhere.
\<close>

theorem key_check_refuses:
  "find_relevant_wiki_pages endpoint api_key pd cp = ([St_error invalid_key_text], None)
   \<longleftrightarrow> api_key = None \<or> api_key = Some [] \<or> (\<exists>key. api_key = Some key \<and> \<not> sublist ''sk-proj'' key)"
  by (auto simp: find_relevant_wiki_pages_def split: option.splits sum.splits)

theorem key_check_refuses_witness:
  "find_relevant_wiki_pages (\<lambda>k p c. Content ''A|B|C|D|E'') (Some ''sk-abc'') ''p'' ''c''
     = ([St_error invalid_key_text], None)
   \<and> find_relevant_wiki_pages (\<lambda>k p c. Content ''A|B|C|D|E'') None ''p'' ''c''
     = ([St_error invalid_key_text], None)
   \<and> find_relevant_wiki_pages (\<lambda>k p c. Content ''A|B|C|D|E'') (Some []) ''p'' ''c''
     = ([St_error invalid_key_text], None)"
  using key_check_refuses[of "\<lambda>k p c. Content ''A|B|C|D|E''" "Some ''sk-abc''" "''p''" "''c''"]
    key_check_refuses[of "\<lambda>k p c. Content ''A|B|C|D|E''" None "''p''" "''c''"]
    key_check_refuses[of "\<lambda>k p c. Content ''A|B|C|D|E''" "Some []" "''p''" "''c''"]
    key_examples(3)
  by simp

subsection \<open>Failures of the call\<close>





section \<open>The pipeline\<close>

text \<open>
  Claim C4.  A submission in which the product description or the customer profile
  is empty shows the title, the introduction and the missing-input warning, and
  nothing else: no request is made, and the script ends normally.
\<close>

theorem missing_input_warning:
  assumes "submitted f" and "product_desc f = [] \<or> customer_profile f = []"
  shows "main endpoint key f
     = [St_title title_text, St_markdown intro_text, St_warning missing_input_text]"
  using assms by (auto simp: main_def)

theorem missing_input_warning_witness:
  "main (\<lambda>k p c. Content ''A|B|C|D|E'') ''sk-proj-1''
     \<lparr>submitted = True, product_desc = [], customer_profile = ''Urban millennials''\<rparr>
     = [St_title title_text, St_markdown intro_text, St_warning missing_input_text]
   \<and> main (\<lambda>k p c. Content ''A|B|C|D|E'') ''sk-proj-1''
     \<lparr>submitted = True, product_desc = ''A coffee subscription box'', customer_profile = []\<rparr>
     = [St_title title_text, St_markdown intro_text, St_warning missing_input_text]"
  using missing_input_warning[of "\<lparr>submitted = True, product_desc = [], customer_profile = ''Urban millennials''\<rparr>"
      "\<lambda>k p c. Content ''A|B|C|D|E''" "''sk-proj-1''"]
    missing_input_warning[of "\<lparr>submitted = True, product_desc = ''A coffee subscription box'', customer_profile = []\<rparr>"
      "\<lambda>k p c. Content ''A|B|C|D|E''" "''sk-proj-1''"]
  by simp

lemma main_submitted:
  assumes "submitted f" and "product_desc f \<noteq> []" and "customer_profile f \<noteq> []"
    and "key \<noteq> []" and "sublist ''sk-proj'' key"
  shows "main endpoint key f =
     [St_title title_text, St_markdown intro_text, St_spinner spinner_text,
      Completion_request key (product_desc f) (customer_profile f)] @
     (case try_body (endpoint key (product_desc f) (customer_profile f)) of
        Inl e \<Rightarrow> [St_error (api_error_text e), St_error no_topics_text]
      | Inr str \<Rightarrow> if str \<noteq> [] then show_topics str else [St_error no_topics_text])"
  using assms by (simp add: main_def resolver_with_key split: sum.splits)

lemma try_body_valid:
  assumes "5 \<le> length (split_on CHR ''|'' body)"
  shows "try_body (Content body) = Inr (strip body)" and "strip body \<noteq> []"
proof -
  have n: "5 \<le> length (split_on CHR ''|'' (strip body))"
    using assms by (simp only: segments_strip)
  then have p: "CHR ''|'' \<in> set (strip body)"
    by (rule five_segments_pipe)
  show "try_body (Content body) = Inr (strip body)"
    using n p by (simp add: try_body_def Let_def not_less)
  show "strip body \<noteq> []"
    using p by auto
qed

lemma main_on_valid_reply:
  assumes "submitted f" and "product_desc f \<noteq> []" and "customer_profile f \<noteq> []"
    and "key \<noteq> []" and "sublist ''sk-proj'' key"
    and "endpoint key (product_desc f) (customer_profile f) = Content body"
    and "5 \<le> length (split_on CHR ''|'' body)"
  shows "main endpoint key f =
     [St_title title_text, St_markdown intro_text, St_spinner spinner_text,
      Completion_request key (product_desc f) (customer_profile f)] @ show_topics (strip body)"
  using assms(6) try_body_valid[OF assms(7)]
  by (simp add: main_submitted[OF assms(1-5)])

lemma no_link_in_failure:
  "St_link_button label url \<notin> set (fst (find_relevant_wiki_pages endpoint api_key pd cp))"
  by (auto simp: find_relevant_wiki_pages_def split: option.splits sum.splits)

text \<open>
  Claim C3.  When the reply of the endpoint contains no pipe, no run of the script
  shows a link button, so no trend URL is built; and a submission with both fields
  filled and a key that passes the key check shows the resolver's error followed by the
  could-not-generate error.
\<close>

theorem no_pipe_no_url:
  assumes "endpoint key (product_desc f) (customer_profile f) = Content body"
    and "CHR ''|'' \<notin> set body"
  shows "(\<forall>label url. St_link_button label url \<notin> set (main endpoint key f))
    \<and> (submitted f \<and> product_desc f \<noteq> [] \<and> customer_profile f \<noteq> []
         \<and> key \<noteq> [] \<and> sublist ''sk-proj'' key \<longrightarrow>
       main endpoint key f =
         [St_title title_text, St_markdown intro_text, St_spinner spinner_text,
          Completion_request key (product_desc f) (customer_profile f),
          St_error (api_error_text value_error_text), St_error no_topics_text])"
proof -
  have t: "try_body (Content body) = Inl value_error_text"
    using assms(2) by (simp add: try_body_def pipe_in_strip)
  obtain events res where r:
    "find_relevant_wiki_pages endpoint (Some key) (product_desc f) (customer_profile f)
       = (events, res)"
    by (cases "find_relevant_wiki_pages endpoint (Some key) (product_desc f) (customer_profile f)")
  have "res = None"
    using r assms(1) t by (auto simp: find_relevant_wiki_pages_def split: if_splits)
  moreover have "St_link_button label url \<notin> set events" for label url
    using no_link_in_failure[of label url endpoint "Some key" "product_desc f" "customer_profile f"] r
    by simp
  ultimately have "\<forall>label url. St_link_button label url \<notin> set (main endpoint key f)"
    using r by (simp add: main_def)
  moreover have "submitted f \<and> product_desc f \<noteq> [] \<and> customer_profile f \<noteq> []
         \<and> key \<noteq> [] \<and> sublist ''sk-proj'' key \<longrightarrow>
       main endpoint key f =
         [St_title title_text, St_markdown intro_text, St_spinner spinner_text,
          Completion_request key (product_desc f) (customer_profile f),
          St_error (api_error_text value_error_text), St_error no_topics_text]"
    using assms(1) t by (auto simp: main_submitted)
  ultimately show ?thesis
    by blast
qed

theorem no_pipe_no_url_witness:
  "(\<forall>label url. St_link_button label url \<notin>
        set (main (\<lambda>k p c. Content ''Sorry, I cannot help with that.'') ''sk-proj-1''
           \<lparr>submitted = True, product_desc = ''p'', customer_profile = ''c''\<rparr>))
   \<and> main (\<lambda>k p c. Content ''Sorry, I cannot help with that.'') ''sk-proj-1''
        \<lparr>submitted = True, product_desc = ''p'', customer_profile = ''c''\<rparr>
      = [St_title title_text, St_markdown intro_text, St_spinner spinner_text,
         Completion_request ''sk-proj-1'' ''p'' ''c'',
         St_error (api_error_text value_error_text), St_error no_topics_text]"
  using no_pipe_no_url[of "\<lambda>k p c. Content ''Sorry, I cannot help with that.''" "''sk-proj-1''"
      "\<lparr>submitted = True, product_desc = ''p'', customer_profile = ''c''\<rparr>"
      "''Sorry, I cannot help with that.''"] key_checked
  by simp

lemma final_url_Some:
  "final_url page_list = Some url \<longleftrightarrow>
     (\<forall>page\<in>set page_list. \<not> has_surrogate (strip page))
     \<and> url = base_url @ join ''|'' (map (\<lambda>page. quote_from_bytes (strip page)) page_list)"
  by (auto simp: final_url_def encoded_pages_Some)

lemma final_url_encodable:
  assumes "\<not> has_surrogate body"
  shows "final_url (split_on CHR ''|'' (strip body))
     = Some (base_url @ join ''|''
         (map (\<lambda>page. quote_from_bytes (strip page)) (split_on CHR ''|'' (strip body))))"
  using stripped_segments_encodable[OF assms] by (simp add: final_url_Some)

lemma show_topics_url:
  assumes "final_url (split_on CHR ''|'' s) = Some url"
  shows "show_topics s =
     [St_success success_text, St_markdown ''---'', St_subheader url_heading_text,
      St_markdown url_help_text, St_link_button link_label url, St_markdown ''---'',
      St_markdown topics_heading_text,
      St_write (bullet @ join (CHR 0x0A # bullet) (readable_pages (split_on CHR ''|'' s)))]"
  using assms by (simp add: show_topics_def Let_def)






lemma coffee_reply:
  "strip ''Coffee|Tea|Espresso|Beans|Roasting|Brewing|Fair_trade|Organic|Subscription|Gourmet''
     = ''Coffee|Tea|Espresso|Beans|Roasting|Brewing|Fair_trade|Organic|Subscription|Gourmet''"
  "length (split_on CHR ''|''
      ''Coffee|Tea|Espresso|Beans|Roasting|Brewing|Fair_trade|Organic|Subscription|Gourmet'') = 10"
  by code_simp+

lemma coffee_topics:
  "show_topics ''Coffee|Tea|Espresso|Beans|Roasting|Brewing|Fair_trade|Organic|Subscription|Gourmet''
   = [St_success success_text, St_markdown ''---'', St_subheader url_heading_text,
      St_markdown url_help_text,
      St_link_button link_label
        (base_url @ join ''|''
           [''Coffee'', ''Tea'', ''Espresso'', ''Beans'', ''Roasting'', ''Brewing'',
            ''Fair_trade'', ''Organic'', ''Subscription'', ''Gourmet'']),
      St_markdown ''---'', St_markdown topics_heading_text,
      St_write (bullet @ join (CHR 0x0A # bullet)
           [''Coffee'', ''Tea'', ''Espresso'', ''Beans'', ''Roasting'', ''Brewing'',
            ''Fair trade'', ''Organic'', ''Subscription'', ''Gourmet''])]"
  by code_simp

lemma coffee_url:
  "base_url @ join ''|''
           [''Coffee'', ''Tea'', ''Espresso'', ''Beans'', ''Roasting'', ''Brewing'',
            ''Fair_trade'', ''Organic'', ''Subscription'', ''Gourmet'']
   = ''https://pageviews.wmcloud.org/?project=en.wikipedia.org&platform=all-access&agent=user&redirects=0&range=latest-20&pages=Coffee|Tea|Espresso|Beans|Roasting|Brewing|Fair_trade|Organic|Subscription|Gourmet''"
  by code_simp

lemma coffee_tokens:
  "split_on CHR ''|''
      ''Coffee|Tea|Espresso|Beans|Roasting|Brewing|Fair_trade|Organic|Subscription|Gourmet''
   = [''Coffee'', ''Tea'', ''Espresso'', ''Beans'', ''Roasting'', ''Brewing'',
      ''Fair_trade'', ''Organic'', ''Subscription'', ''Gourmet'']"
  "map quote [''Coffee'', ''Tea'', ''Espresso'', ''Beans'', ''Roasting'', ''Brewing'',
              ''Fair_trade'', ''Organic'', ''Subscription'', ''Gourmet'']
   = map Some [''Coffee'', ''Tea'', ''Espresso'', ''Beans'', ''Roasting'', ''Brewing'',
               ''Fair_trade'', ''Organic'', ''Subscription'', ''Gourmet'']"
  "readable_pages [''Coffee'', ''Tea'', ''Espresso'', ''Beans'', ''Roasting'', ''Brewing'',
                   ''Fair_trade'', ''Organic'', ''Subscription'', ''Gourmet'']
   = [''Coffee'', ''Tea'', ''Espresso'', ''Beans'', ''Roasting'', ''Brewing'',
      ''Fair trade'', ''Organic'', ''Subscription'', ''Gourmet'']"
  by code_simp+

text \<open>
  Claim C6.  When the endpoint replies
  \<open>Coffee|Tea|Espresso|Beans|Roasting|Brewing|Fair_trade|Organic|Subscription|Gourmet\<close>
  to a submission with both fields filled, the link button carries the base URL
  followed by the ten tokens joined by pipes in that order, each token being its own
  percent-encoding (so the URL is the base URL followed by the reply itself), and the
  list written out is Coffee, Tea, Espresso, Beans, Roasting, Brewing, Fair trade,
  Organic, Subscription, Gourmet.  The witness takes the inputs of the scenario.
\<close>

theorem coffee_scenario:
  assumes "submitted f" and "product_desc f \<noteq> []" and "customer_profile f \<noteq> []"
    and "key \<noteq> []" and "sublist ''sk-proj'' key"
    and "endpoint key (product_desc f) (customer_profile f) = Content
      ''Coffee|Tea|Espresso|Beans|Roasting|Brewing|Fair_trade|Organic|Subscription|Gourmet''"
  shows "main endpoint key f =
      [St_title title_text, St_markdown intro_text, St_spinner spinner_text,
       Completion_request key (product_desc f) (customer_profile f),
       St_success success_text, St_markdown ''---'', St_subheader url_heading_text,
       St_markdown url_help_text,
       St_link_button link_label
         (base_url @ join ''|''
            [''Coffee'', ''Tea'', ''Espresso'', ''Beans'', ''Roasting'', ''Brewing'',
             ''Fair_trade'', ''Organic'', ''Subscription'', ''Gourmet'']),
       St_markdown ''---'', St_markdown topics_heading_text,
       St_write (bullet @ join (CHR 0x0A # bullet)
            [''Coffee'', ''Tea'', ''Espresso'', ''Beans'', ''Roasting'', ''Brewing'',
             ''Fair trade'', ''Organic'', ''Subscription'', ''Gourmet''])]
    \<and> map quote [''Coffee'', ''Tea'', ''Espresso'', ''Beans'', ''Roasting'', ''Brewing'',
                  ''Fair_trade'', ''Organic'', ''Subscription'', ''Gourmet'']
      = map Some [''Coffee'', ''Tea'', ''Espresso'', ''Beans'', ''Roasting'', ''Brewing'',
                  ''Fair_trade'', ''Organic'', ''Subscription'', ''Gourmet'']
    \<and> base_url @ join ''|''
            [''Coffee'', ''Tea'', ''Espresso'', ''Beans'', ''Roasting'', ''Brewing'',
             ''Fair_trade'', ''Organic'', ''Subscription'', ''Gourmet'']
      = ''https://pageviews.wmcloud.org/?project=en.wikipedia.org&platform=all-access&agent=user&redirects=0&range=latest-20&pages=Coffee|Tea|Espresso|Beans|Roasting|Brewing|Fair_trade|Organic|Subscription|Gourmet''
    \<and> readable_pages (split_on CHR ''|''
         ''Coffee|Tea|Espresso|Beans|Roasting|Brewing|Fair_trade|Organic|Subscription|Gourmet'')
      = [''Coffee'', ''Tea'', ''Espresso'', ''Beans'', ''Roasting'', ''Brewing'',
         ''Fair trade'', ''Organic'', ''Subscription'', ''Gourmet'']"
proof -
  have "main endpoint key f =
     [St_title title_text, St_markdown intro_text, St_spinner spinner_text,
      Completion_request key (product_desc f) (customer_profile f)]
     @ show_topics ''Coffee|Tea|Espresso|Beans|Roasting|Brewing|Fair_trade|Organic|Subscription|Gourmet''"
    using main_on_valid_reply[of f key endpoint
        "''Coffee|Tea|Espresso|Beans|Roasting|Brewing|Fair_trade|Organic|Subscription|Gourmet''"]
      assms
    by (simp only: coffee_reply) simp
  then have "main endpoint key f =
      [St_title title_text, St_markdown intro_text, St_spinner spinner_text,
       Completion_request key (product_desc f) (customer_profile f),
       St_success success_text, St_markdown ''---'', St_subheader url_heading_text,
       St_markdown url_help_text,
       St_link_button link_label
         (base_url @ join ''|''
            [''Coffee'', ''Tea'', ''Espresso'', ''Beans'', ''Roasting'', ''Brewing'',
             ''Fair_trade'', ''Organic'', ''Subscription'', ''Gourmet'']),
       St_markdown ''---'', St_markdown topics_heading_text,
       St_write (bullet @ join (CHR 0x0A # bullet)
            [''Coffee'', ''Tea'', ''Espresso'', ''Beans'', ''Roasting'', ''Brewing'',
             ''Fair trade'', ''Organic'', ''Subscription'', ''Gourmet''])]"
    by (simp only: coffee_topics) simp
  moreover have "readable_pages (split_on CHR ''|''
         ''Coffee|Tea|Espresso|Beans|Roasting|Brewing|Fair_trade|Organic|Subscription|Gourmet'')
      = [''Coffee'', ''Tea'', ''Espresso'', ''Beans'', ''Roasting'', ''Brewing'',
         ''Fair trade'', ''Organic'', ''Subscription'', ''Gourmet'']"
    by (simp only: coffee_tokens)
  ultimately show ?thesis
    using coffee_tokens(2) coffee_url by blast
qed

theorem coffee_scenario_witness:
  "main (\<lambda>k p c. Content
        ''Coffee|Tea|Espresso|Beans|Roasting|Brewing|Fair_trade|Organic|Subscription|Gourmet'')
      ''sk-proj-1''
      \<lparr>submitted = True, product_desc = ''A coffee subscription box'',
       customer_profile = ''Urban millennials''\<rparr>
   = [St_title title_text, St_markdown intro_text, St_spinner spinner_text,
      Completion_request ''sk-proj-1'' ''A coffee subscription box'' ''Urban millennials'',
      St_success success_text, St_markdown ''---'', St_subheader url_heading_text,
      St_markdown url_help_text,
      St_link_button link_label
        ''https://pageviews.wmcloud.org/?project=en.wikipedia.org&platform=all-access&agent=user&redirects=0&range=latest-20&pages=Coffee|Tea|Espresso|Beans|Roasting|Brewing|Fair_trade|Organic|Subscription|Gourmet'',
      St_markdown ''---'', St_markdown topics_heading_text,
      St_write (bullet @ join (CHR 0x0A # bullet)
           [''Coffee'', ''Tea'', ''Espresso'', ''Beans'', ''Roasting'', ''Brewing'',
            ''Fair trade'', ''Organic'', ''Subscription'', ''Gourmet''])]"
proof -
  note t = coffee_scenario[of
      "\<lparr>submitted = True, product_desc = ''A coffee subscription box'',
        customer_profile = ''Urban millennials''\<rparr>"
      "''sk-proj-1''"
      "\<lambda>k p c. Content
        ''Coffee|Tea|Espresso|Beans|Roasting|Brewing|Fair_trade|Organic|Subscription|Gourmet''"]
  have "main (\<lambda>k p c. Content
        ''Coffee|Tea|Espresso|Beans|Roasting|Brewing|Fair_trade|Organic|Subscription|Gourmet'')
      ''sk-proj-1''
      \<lparr>submitted = True, product_desc = ''A coffee subscription box'',
       customer_profile = ''Urban millennials''\<rparr>
   = [St_title title_text, St_markdown intro_text, St_spinner spinner_text,
      Completion_request ''sk-proj-1'' ''A coffee subscription box'' ''Urban millennials'',
      St_success success_text, St_markdown ''---'', St_subheader url_heading_text,
      St_markdown url_help_text,
      St_link_button link_label
         (base_url @ join ''|''
            [''Coffee'', ''Tea'', ''Espresso'', ''Beans'', ''Roasting'', ''Brewing'',
             ''Fair_trade'', ''Organic'', ''Subscription'', ''Gourmet'']),
      St_markdown ''---'', St_markdown topics_heading_text,
      St_write (bullet @ join (CHR 0x0A # bullet)
           [''Coffee'', ''Tea'', ''Espresso'', ''Beans'', ''Roasting'', ''Brewing'',
            ''Fair trade'', ''Organic'', ''Subscription'', ''Gourmet''])]"
    using t key_checked by simp
  then show ?thesis
    by (simp only: coffee_url)
qed

section \<open>The link builder\<close>

lemma marks_safe:
  "c = CHR ''_'' \<or> c = CHR ''-'' \<Longrightarrow> c \<in> set (always_safe @ safe_default)"
  by (auto simp: always_safe_def)

lemma quote_byte_marks:
  "filter (\<lambda>c. c = CHR ''_'' \<or> c = CHR ''-'') (quote_byte c)
     = filter (\<lambda>c. c = CHR ''_'' \<or> c = CHR ''-'') [c]"
proof (cases "c \<in> set (always_safe @ safe_default)")
  case True
  then show ?thesis by (simp add: quote_byte_def)
next
  case False
  then have "c \<noteq> CHR ''_''" and "c \<noteq> CHR ''-''"
    using marks_safe[of c] by auto
  then show ?thesis
    using False hex_digit_props(3,4)[OF of_char_nibbles(1)[of c]]
      hex_digit_props(3,4)[OF of_char_nibbles(2)[of c]]
    by (simp add: quote_byte_def)
qed

lemma quote_marks:
  "filter (\<lambda>c. c = CHR ''_'' \<or> c = CHR ''-'') (quote_from_bytes s)
     = filter (\<lambda>c. c = CHR ''_'' \<or> c = CHR ''-'') s"
proof (induction s)
  case Nil
  then show ?case by (simp add: quote_from_bytes_def)
next
  case (Cons c s)
  have "quote_from_bytes (c # s) = quote_byte c @ quote_from_bytes s"
    by (simp add: quote_from_bytes_def)
  then show ?case
    using Cons quote_byte_marks[of c] by simp
qed

lemma quote_around_mark:
  assumes "mark = CHR ''_'' \<or> mark = CHR ''-''"
  shows "quote (s @ mark # t) =
     (case quote s of
        None \<Rightarrow> None
      | Some es \<Rightarrow> (case quote t of None \<Rightarrow> None | Some et \<Rightarrow> Some (es @ mark # et)))"
proof -
  have "quote_from_bytes (s @ mark # t) = quote_from_bytes s @ mark # quote_from_bytes t"
    using marks_safe[OF assms] quote_append[of s "mark # t"] quote_append[of "[mark]" t]
      quote_kept[of mark]
    by simp
  then show ?thesis
    using has_surrogate_around_mark[OF assms, of s t]
    by (cases "has_surrogate s"; cases "has_surrogate t") (simp_all add: quote_Some quote_None)
qed

lemma quoted_pages:
  assumes "final_url page_list = Some url"
  shows "map (\<lambda>page. quote (strip page)) page_list
     = map Some (map (\<lambda>page. quote_from_bytes (strip page)) page_list)"
  using assms by (auto simp: final_url_Some quote_Some)

lemma pages_value_url:
  assumes "final_url page_list = Some url"
  shows "pages_value url = join ''|'' (map (\<lambda>page. quote_from_bytes (strip page)) page_list)"
  using assms by (auto simp: final_url_Some pages_value_def)

lemma split_pages_value:
  assumes "final_url page_list = Some url" and "page_list \<noteq> []"
  shows "split_on CHR ''|'' (pages_value url)
     = map (\<lambda>page. quote_from_bytes (strip page)) page_list"
proof -
  have "map (\<lambda>page. quote_from_bytes (strip page)) page_list \<noteq> []"
    using assms(2) by simp
  moreover have "\<forall>x\<in>set (map (\<lambda>page. quote_from_bytes (strip page)) page_list). CHR ''|'' \<notin> set x"
    by (auto simp: pipe_not_in_quote)
  ultimately show ?thesis
    unfolding pages_value_url[OF assms(1)] by (rule split_on_join)
qed

lemma pipes_in_pages_value:
  assumes "final_url page_list = Some url"
  shows "length (filter (\<lambda>c. c = CHR ''|'') (pages_value url)) = length page_list - 1"
proof (cases "page_list = []")
  case True
  then show ?thesis
    by (simp add: pages_value_url[OF assms])
next
  case False
  have "length (split_on CHR ''|'' (pages_value url))
      = Suc (length (filter (\<lambda>c. c = CHR ''|'') (pages_value url)))"
    by (rule length_split_on)
  then show ?thesis
    using split_pages_value[OF assms False] by simp
qed

lemma quote_example: "quote ''Zero-waste_movement'' = Some ''Zero-waste_movement''"
  by code_simp

text \<open>
  Claim C7.  Encoding is per token: \<open>Zero-waste_movement\<close> is its own encoding;
  \<open>quote\<close> raises exactly on a token with a lone surrogate; the underscores and
  hyphens of a token are those of its encoding, in the same order, and an underscore or
  hyphen between two parts of a token stays between their encodings; no encoding
  contains a pipe; the URL is built unless \<open>quote\<close> raises on a token, and then its
  \<open>pages\<close> value is the encoded tokens joined by pipes, so splitting it on the pipe gives
  back the encoded tokens, and it contains one pipe fewer than there are tokens.
\<close>

theorem encoding_per_token:
  "quote ''Zero-waste_movement'' = Some ''Zero-waste_movement''
   \<and> (quote token = None \<longleftrightarrow> has_surrogate token)
   \<and> (quote token = Some encoded \<longrightarrow>
        filter (\<lambda>c. c = CHR ''_'' \<or> c = CHR ''-'') encoded
          = filter (\<lambda>c. c = CHR ''_'' \<or> c = CHR ''-'') token
        \<and> CHR ''|'' \<notin> set encoded)
   \<and> (mark = CHR ''_'' \<or> mark = CHR ''-'' \<longrightarrow>
        quote (s @ mark # t) =
          (case quote s of
             None \<Rightarrow> None
           | Some es \<Rightarrow> (case quote t of None \<Rightarrow> None | Some et \<Rightarrow> Some (es @ mark # et))))
   \<and> (final_url page_list = None \<longleftrightarrow> (\<exists>page\<in>set page_list. quote (strip page) = None))
   \<and> (final_url page_list = Some url \<longrightarrow>
        (\<exists>encoded_list.
            map (\<lambda>page. quote (strip page)) page_list = map Some encoded_list
            \<and> pages_value url = join ''|'' encoded_list
            \<and> (page_list \<noteq> [] \<longrightarrow> split_on CHR ''|'' (pages_value url) = encoded_list))
        \<and> length (filter (\<lambda>c. c = CHR ''|'') (pages_value url)) = length page_list - 1)"
proof -
  have a: "quote token = None \<longleftrightarrow> has_surrogate token"
    by (auto simp: quote_def encode_utf8_def)
  have b: "quote token = Some encoded \<longrightarrow>
        filter (\<lambda>c. c = CHR ''_'' \<or> c = CHR ''-'') encoded
          = filter (\<lambda>c. c = CHR ''_'' \<or> c = CHR ''-'') token
        \<and> CHR ''|'' \<notin> set encoded"
    by (auto simp: quote_eq_Some quote_marks pipe_not_in_quote)
  have c: "mark = CHR ''_'' \<or> mark = CHR ''-'' \<longrightarrow>
        quote (s @ mark # t) =
          (case quote s of
             None \<Rightarrow> None
           | Some es \<Rightarrow> (case quote t of None \<Rightarrow> None | Some et \<Rightarrow> Some (es @ mark # et)))"
    using quote_around_mark[of mark s t] by blast
  have d: "final_url page_list = None \<longleftrightarrow> (\<exists>page\<in>set page_list. quote (strip page) = None)"
    by (auto simp: final_url_def encoded_pages_None quote_def encode_utf8_def)
  have e: "final_url page_list = Some url \<longrightarrow>
        (\<exists>encoded_list.
            map (\<lambda>page. quote (strip page)) page_list = map Some encoded_list
            \<and> pages_value url = join ''|'' encoded_list
            \<and> (page_list \<noteq> [] \<longrightarrow> split_on CHR ''|'' (pages_value url) = encoded_list))
        \<and> length (filter (\<lambda>c. c = CHR ''|'') (pages_value url)) = length page_list - 1"
    using quoted_pages[of page_list url] pages_value_url[of page_list url]
      split_pages_value[of page_list url] pipes_in_pages_value[of page_list url]
    by blast
  show ?thesis
    using quote_example a b c d e by blast
qed

lemma token_examples:
  "quote ''AT&T_(a|b)'' = Some ''AT%26T_%28a%7Cb%29''"
  "quote ''AT&T'' = Some ''AT%26T''"
  "quote ''(a|b)'' = Some ''%28a%7Cb%29''"
  "final_url [''AT&T_(a|b)'', '' Zero-waste_movement '']
     = Some (base_url @ ''AT%26T_%28a%7Cb%29|Zero-waste_movement'')"
  "map (\<lambda>page. quote (strip page)) [''AT&T_(a|b)'', '' Zero-waste_movement '']
     = map Some [''AT%26T_%28a%7Cb%29'', ''Zero-waste_movement'']"
  by code_simp+

theorem encoding_per_token_witness:
  "quote ''Zero-waste_movement'' = Some ''Zero-waste_movement''
   \<and> quote ''AT&T_(a|b)'' = Some ''AT%26T_%28a%7Cb%29''
   \<and> CHR ''|'' \<notin> set ''AT%26T_%28a%7Cb%29''
   \<and> quote (''AT&T'' @ CHR ''_'' # ''(a|b)'') = Some (''AT%26T'' @ CHR ''_'' # ''%28a%7Cb%29'')
   \<and> final_url [''AT&T_(a|b)'', '' Zero-waste_movement '']
       = Some (base_url @ ''AT%26T_%28a%7Cb%29|Zero-waste_movement'')
   \<and> split_on CHR ''|'' (pages_value (base_url @ ''AT%26T_%28a%7Cb%29|Zero-waste_movement''))
       = [''AT%26T_%28a%7Cb%29'', ''Zero-waste_movement'']"
proof -
  note t = encoding_per_token[of "''AT&T_(a|b)''" "''AT%26T_%28a%7Cb%29''" "CHR ''_''"
      "''AT&T''" "''(a|b)''" "[''AT&T_(a|b)'', '' Zero-waste_movement '']"
      "base_url @ ''AT%26T_%28a%7Cb%29|Zero-waste_movement''"]
  have c1: "quote ''Zero-waste_movement'' = Some ''Zero-waste_movement''"
    using t by blast
  have c2: "CHR ''|'' \<notin> set ''AT%26T_%28a%7Cb%29''"
    using t token_examples(1) by blast
  have "quote (''AT&T'' @ CHR ''_'' # ''(a|b)'') =
      (case quote ''AT&T'' of
         None \<Rightarrow> None
       | Some es \<Rightarrow>
           (case quote ''(a|b)'' of None \<Rightarrow> None | Some et \<Rightarrow> Some (es @ CHR ''_'' # et)))"
    using t by blast
  then have c3: "quote (''AT&T'' @ CHR ''_'' # ''(a|b)'')
      = Some (''AT%26T'' @ CHR ''_'' # ''%28a%7Cb%29'')"
    by (simp only: token_examples option.case)
  obtain encoded_list where
    m: "map (\<lambda>page. quote (strip page)) [''AT&T_(a|b)'', '' Zero-waste_movement '']
          = map Some encoded_list"
    and s: "[''AT&T_(a|b)'', '' Zero-waste_movement ''] \<noteq> [] \<longrightarrow>
          split_on CHR ''|'' (pages_value (base_url @ ''AT%26T_%28a%7Cb%29|Zero-waste_movement''))
            = encoded_list"
    using t token_examples(4) by blast
  have "map Some encoded_list = map Some [''AT%26T_%28a%7Cb%29'', ''Zero-waste_movement'']"
    using m token_examples(5) by (rule trans[OF sym])
  then have "encoded_list = [''AT%26T_%28a%7Cb%29'', ''Zero-waste_movement'']"
    by (rule map_injective) simp
  then have c4: "split_on CHR ''|''
        (pages_value (base_url @ ''AT%26T_%28a%7Cb%29|Zero-waste_movement''))
      = [''AT%26T_%28a%7Cb%29'', ''Zero-waste_movement'']"
    using s by simp
  show ?thesis
    using c1 c2 c3 c4 token_examples(1,4) by blast
qed

lemma decode_encoded_pages:
  "map percent_decode (map (\<lambda>page. quote_from_bytes (strip page)) page_list)
     = map strip page_list"
  by (simp add: percent_decode_quote)

lemma split_nonempty: "split_on sep s \<noteq> []"
  using length_split_on[of sep s] by auto

lemma raw_example:
  "main (\<lambda>k p c. Content ''A |B|C|D|E'') ''sk-proj-1''
      \<lparr>submitted = True, product_desc = ''p'', customer_profile = ''c''\<rparr>
   = [St_title title_text, St_markdown intro_text, St_spinner spinner_text,
      Completion_request ''sk-proj-1'' ''p'' ''c'',
      St_success success_text, St_markdown ''---'', St_subheader url_heading_text,
      St_markdown url_help_text,
      St_link_button link_label (base_url @ ''A|B|C|D|E''),
      St_markdown ''---'', St_markdown topics_heading_text,
      St_write (bullet @ join (CHR 0x0A # bullet) [''A'', ''B'', ''C'', ''D'', ''E''])]"
  "map percent_decode (split_on CHR ''|'' (pages_value (base_url @ ''A|B|C|D|E'')))
   = [''A'', ''B'', ''C'', ''D'', ''E'']"
  "split_on CHR ''|'' ''A |B|C|D|E'' = [''A '', ''B'', ''C'', ''D'', ''E'']"
  by code_simp+

text \<open>
  The script strips each segment before encoding it.  For the reply \<open>A |B|C|D|E\<close> the
  first segment is \<open>A\<close> followed by a space; the URL decodes to \<open>A\<close> without it.
\<close>

theorem roundtrip_raw_counterexample:
  "St_link_button link_label (base_url @ ''A|B|C|D|E'')
     \<in> set (main (\<lambda>k p c. Content ''A |B|C|D|E'') ''sk-proj-1''
          \<lparr>submitted = True, product_desc = ''p'', customer_profile = ''c''\<rparr>)
   \<and> map percent_decode (split_on CHR ''|'' (pages_value (base_url @ ''A|B|C|D|E'')))
       = [''A'', ''B'', ''C'', ''D'', ''E'']
   \<and> split_on CHR ''|'' ''A |B|C|D|E'' = [''A '', ''B'', ''C'', ''D'', ''E'']
   \<and> map percent_decode (split_on CHR ''|'' (pages_value (base_url @ ''A|B|C|D|E'')))
       \<noteq> split_on CHR ''|'' ''A |B|C|D|E''"
  by (simp only: raw_example) simp

text \<open>
  Claim C1, amended.  For a submission with both fields filled, a key that passes the
  key check and a reply that holds no lone surrogate and splits on the pipe into at
  least five segments, the URL is built and shown on the link button, it starts with
  the base URL, and splitting its \<open>pages\<close> value on the pipe and percent-decoding each
  field gives the segments of the stripped reply, each stripped of its leading and
  trailing white space.  The list written out holds the same segments with underscores
  replaced by spaces, then stripped.
\<close>

theorem trend_url_roundtrip:
  assumes "submitted f" and "product_desc f \<noteq> []" and "customer_profile f \<noteq> []"
    and "key \<noteq> []" and "sublist ''sk-proj'' key"
    and "endpoint key (product_desc f) (customer_profile f) = Content body"
    and "5 \<le> length (split_on CHR ''|'' body)"
    and "\<not> has_surrogate body"
  shows "\<exists>url. final_url (split_on CHR ''|'' (strip body)) = Some url
     \<and> St_link_button link_label url \<in> set (main endpoint key f)
     \<and> prefix base_url url
     \<and> map percent_decode (split_on CHR ''|'' (pages_value url))
       = map strip (split_on CHR ''|'' (strip body))
     \<and> St_write (bullet @ join (CHR 0x0A # bullet)
          (map (\<lambda>p. strip (replace_char CHR ''_'' CHR '' '' p))
             (split_on CHR ''|'' (strip body))))
       \<in> set (main endpoint key f)"
proof -
  obtain url where u: "final_url (split_on CHR ''|'' (strip body)) = Some url"
    using final_url_encodable[OF assms(8)] by blast
  have "main endpoint key f =
     [St_title title_text, St_markdown intro_text, St_spinner spinner_text,
      Completion_request key (product_desc f) (customer_profile f)] @ show_topics (strip body)"
    using assms(1-7) by (rule main_on_valid_reply)
  then have "St_link_button link_label url \<in> set (main endpoint key f)"
    and "St_write (bullet @ join (CHR 0x0A # bullet)
          (map (\<lambda>p. strip (replace_char CHR ''_'' CHR '' '' p))
             (split_on CHR ''|'' (strip body))))
       \<in> set (main endpoint key f)"
    by (simp_all add: show_topics_url[OF u] readable_pages_def)
  moreover have "prefix base_url url"
    using u by (auto simp: final_url_Some)
  moreover have "map percent_decode (split_on CHR ''|'' (pages_value url))
       = map strip (split_on CHR ''|'' (strip body))"
    by (simp only: split_pages_value[OF u split_nonempty] decode_encoded_pages)
  ultimately show ?thesis
    using u by blast
qed

theorem trend_url_roundtrip_witness:
  "final_url (split_on CHR ''|'' (''A |B b|C'' @ [CHR 0xC3, CHR 0xA9] @ ''|D|E''))
     = Some (base_url @ ''A|B%20b|C%C3%A9|D|E'')
   \<and> St_link_button link_label (base_url @ ''A|B%20b|C%C3%A9|D|E'')
       \<in> set (main (\<lambda>k p c. Content ('' A |B b|C'' @ [CHR 0xC3, CHR 0xA9] @ ''|D|E''))
            ''sk-proj-1'' \<lparr>submitted = True, product_desc = ''p'', customer_profile = ''c''\<rparr>)
   \<and> prefix base_url (base_url @ ''A|B%20b|C%C3%A9|D|E'')
   \<and> map percent_decode (split_on CHR ''|'' (pages_value (base_url @ ''A|B%20b|C%C3%A9|D|E'')))
       = [''A'', ''B b'', ''C'' @ [CHR 0xC3, CHR 0xA9], ''D'', ''E'']"
proof -
  have s: "strip ('' A |B b|C'' @ [CHR 0xC3, CHR 0xA9] @ ''|D|E'')
      = ''A |B b|C'' @ [CHR 0xC3, CHR 0xA9] @ ''|D|E''"
    by code_simp
  have h: "\<not> has_surrogate ('' A |B b|C'' @ [CHR 0xC3, CHR 0xA9] @ ''|D|E'')"
    by code_simp
  have u: "final_url (split_on CHR ''|'' (''A |B b|C'' @ [CHR 0xC3, CHR 0xA9] @ ''|D|E''))
      = Some (base_url @ ''A|B%20b|C%C3%A9|D|E'')"
    by code_simp
  have m: "map strip (split_on CHR ''|'' (''A |B b|C'' @ [CHR 0xC3, CHR 0xA9] @ ''|D|E''))
      = [''A'', ''B b'', ''C'' @ [CHR 0xC3, CHR 0xA9], ''D'', ''E'']"
    by code_simp
  have "\<exists>url. final_url (split_on CHR ''|''
              (strip ('' A |B b|C'' @ [CHR 0xC3, CHR 0xA9] @ ''|D|E''))) = Some url
     \<and> St_link_button link_label url
       \<in> set (main (\<lambda>k p c. Content ('' A |B b|C'' @ [CHR 0xC3, CHR 0xA9] @ ''|D|E''))
            ''sk-proj-1'' \<lparr>submitted = True, product_desc = ''p'', customer_profile = ''c''\<rparr>)
     \<and> prefix base_url url
     \<and> map percent_decode (split_on CHR ''|'' (pages_value url))
       = map strip (split_on CHR ''|''
           (strip ('' A |B b|C'' @ [CHR 0xC3, CHR 0xA9] @ ''|D|E'')))
     \<and> St_write (bullet @ join (CHR 0x0A # bullet)
          (map (\<lambda>p. strip (replace_char CHR ''_'' CHR '' '' p))
             (split_on CHR ''|'' (strip ('' A |B b|C'' @ [CHR 0xC3, CHR 0xA9] @ ''|D|E'')))))
       \<in> set (main (\<lambda>k p c. Content ('' A |B b|C'' @ [CHR 0xC3, CHR 0xA9] @ ''|D|E''))
            ''sk-proj-1'' \<lparr>submitted = True, product_desc = ''p'', customer_profile = ''c''\<rparr>)"
  proof (rule trend_url_roundtrip[of
        "\<lparr>submitted = True, product_desc = ''p'', customer_profile = ''c''\<rparr>" "''sk-proj-1''"
        "\<lambda>k p c. Content ('' A |B b|C'' @ [CHR 0xC3, CHR 0xA9] @ ''|D|E'')"
        "'' A |B b|C'' @ [CHR 0xC3, CHR 0xA9] @ ''|D|E''"])
  qed (simp_all add: key_checked h split_on_def)
  then obtain url where
    a: "final_url (split_on CHR ''|''
          (strip ('' A |B b|C'' @ [CHR 0xC3, CHR 0xA9] @ ''|D|E''))) = Some url"
    and b: "St_link_button link_label url
       \<in> set (main (\<lambda>k p c. Content ('' A |B b|C'' @ [CHR 0xC3, CHR 0xA9] @ ''|D|E''))
            ''sk-proj-1'' \<lparr>submitted = True, product_desc = ''p'', customer_profile = ''c''\<rparr>)"
    and c: "prefix base_url url"
    and d: "map percent_decode (split_on CHR ''|'' (pages_value url))
       = map strip (split_on CHR ''|''
           (strip ('' A |B b|C'' @ [CHR 0xC3, CHR 0xA9] @ ''|D|E'')))"
    by blast
  have "Some url = Some (base_url @ ''A|B%20b|C%C3%A9|D|E'')"
    using a[unfolded s] u by (rule trans[OF sym])
  then have e: "url = base_url @ ''A|B%20b|C%C3%A9|D|E''"
    by (simp only: option.inject)
  show ?thesis
    using u b c d[unfolded s m] unfolding e by blast
qed

end
